theory Spec2Isabelle
  imports Main "HOL-Library.Word"
begin

section \<open>The Double Ratchet session of \<^verbatim>\<open>state.go\<close>\<close>

text \<open>
  A shallow embedding of \<^verbatim>\<open>src/state.go\<close>: the session record, its constructor with
  the two options, \<^verbatim>\<open>RatchetEncrypt\<close>, \<^verbatim>\<open>RatchetDecrypt\<close> and the three helpers of the
  receive path. Go values are modelled as follows.
  \<^item> \<^verbatim>\<open>[32]byte\<close> is a list of bytes; the zero array is \<open>zero32\<close>.
  \<^item> \<^verbatim>\<open>[]byte\<close> is a \<open>slice\<close>: \<open>None\<close> is the \<^verbatim>\<open>nil\<close> slice, \<open>Some bs\<close> a slice with
    contents \<open>bs\<close> (\<open>Some []\<close> is empty but not \<^verbatim>\<open>nil\<close>). The receive path tests a
    plaintext against \<^verbatim>\<open>nil\<close>, so the difference is kept.
  \<^item> \<^verbatim>\<open>uint\<close> is a 64-bit word, its size on a 64-bit platform: \<open>+\<close> wraps and \<open><\<close>
    compares unsigned.
  \<^item> \<^verbatim>\<open>error\<close> is \<open>string option\<close>: \<open>None\<close> is \<^verbatim>\<open>nil\<close>, \<open>Some msg\<close> an error with the
    message \<^verbatim>\<open>fmt.Errorf\<close> builds.
  \<^item> A Go map is a reference. The field \<open>MkSkipped\<close> holds a \<open>ref\<close>, the map itself
    lives in a \<open>heap\<close>, and every function that reads or writes the map takes the heap
    and returns it. Copying a \<open>state\<close> copies the reference, not the map.
\<close>

type_synonym byte = "8 word"
type_synonym key = "byte list"
type_synonym slice = "byte list option"
type_synonym uint = "64 word"
type_synonym error = "string option"

definition zero32 :: key where
  "zero32 = replicate 32 0"

definition content :: "slice \<Rightarrow> byte list" where
  "content b = (case b of None \<Rightarrow> [] | Some bs \<Rightarrow> bs)"

subsection \<open>The key of a skipped message: \<^verbatim>\<open>fmt.Sprintf("%s%d", hex.EncodeToString(dh), n)\<close>\<close>

definition hexdigit :: "nat \<Rightarrow> char" where
  "hexdigit n = ''0123456789abcdef'' ! n"

definition EncodeToString :: "byte list \<Rightarrow> string" where
  "EncodeToString src =
     concat (map (\<lambda>v. [hexdigit (unat (drop_bit 4 v)), hexdigit (unat (take_bit 4 v))]) src)"

definition digit :: "nat \<Rightarrow> char" where
  "digit n = ''0123456789'' ! n"

fun decimal :: "nat \<Rightarrow> string" where
  "decimal n = (if n < 10 then [digit n] else decimal (n div 10) @ [digit (n mod 10)])"

declare decimal.simps [simp del]

definition skippedKey :: "byte list \<Rightarrow> uint \<Rightarrow> string" where
  "skippedKey dh n = EncodeToString dh @ decimal (unat n)"

subsection \<open>Types declared outside \<^verbatim>\<open>state.go\<close>\<close>

text \<open>
  Modelled from the spec: \<^verbatim>\<open>DHPair\<close> is declared in a file that is not part of the source
  at hand. The spec's data model calls it a keypair of a public and a private part, and
  \<^verbatim>\<open>state.go\<close> reads the public part with \<^verbatim>\<open>PublicKey()\<close>.
\<close>

record DHPair =
  PrivateKey :: key
  PublicKey :: key

text \<open>
  Modelled from the spec: \<^verbatim>\<open>MessageHeader\<close> and \<^verbatim>\<open>Message\<close> are declared outside
  \<^verbatim>\<open>state.go\<close>; the fields are the ones \<^verbatim>\<open>state.go\<close> reads and writes
  (\<^verbatim>\<open>Header.DH\<close>, \<^verbatim>\<open>Header.N\<close>, \<^verbatim>\<open>Header.PN\<close>, \<^verbatim>\<open>Ciphertext\<close>). The header fields are
  prefixed with \<open>h\<close>, since \<open>DH\<close> and \<open>PN\<close> also name a primitive and a session field.
\<close>

record MessageHeader =
  hDH :: key
  hN :: uint
  hPN :: uint

record Message =
  Header :: MessageHeader
  Ciphertext :: slice

text \<open>
  Modelled from the spec: the interface \<^verbatim>\<open>Crypto\<close> is declared outside \<^verbatim>\<open>state.go\<close>.
  Its deterministic primitives are the fields of a record, so that every theorem holds
  for any suite. \<^verbatim>\<open>GenerateDH\<close>, the one primitive that draws randomness and may fail,
  is not a field: a function that calls it (each calls it at most once) takes the
  outcome of that call, a \<open>DHPair \<times> error\<close>, as the argument \<open>gen\<close>.
\<close>

record Crypto =
  DH :: "DHPair \<Rightarrow> key \<Rightarrow> key"
  KdfRK :: "key \<Rightarrow> key \<Rightarrow> key \<times> key"
  KdfCK :: "key \<Rightarrow> key \<times> key"
  Encrypt :: "key \<Rightarrow> slice \<Rightarrow> slice \<Rightarrow> slice"
  Decrypt :: "key \<Rightarrow> slice \<Rightarrow> slice \<Rightarrow> slice \<times> error"

text \<open>
  Modelled from the spec: the method \<^verbatim>\<open>MessageHeader.EncodeWithAD\<close> is defined outside
  \<^verbatim>\<open>state.go\<close>; the functions that call it take it as the argument \<open>EncodeWithAD\<close>.
\<close>

type_synonym encoder = "MessageHeader \<Rightarrow> slice \<Rightarrow> slice"

subsection \<open>The session and the heap of skipped-key maps\<close>

type_synonym ref = nat

record heap =
  cells :: "ref \<Rightarrow> (string \<rightharpoonup> key)"
  next_ref :: ref

definition make_map :: "heap \<Rightarrow> ref \<times> heap" where
  "make_map h =
     (next_ref h, h\<lparr>cells := (cells h)(next_ref h := Map.empty), next_ref := Suc (next_ref h)\<rparr>)"

definition map_store :: "heap \<Rightarrow> ref \<Rightarrow> string \<Rightarrow> key \<Rightarrow> heap" where
  "map_store h r k v = h\<lparr>cells := (cells h)(r := (cells h r)(k \<mapsto> v))\<rparr>"

definition map_delete :: "heap \<Rightarrow> ref \<Rightarrow> string \<Rightarrow> heap" where
  "map_delete h r k = h\<lparr>cells := (cells h)(r := (cells h r)(k := None))\<rparr>"

record state =
  RK :: key
  DHr :: key
  DHs :: DHPair
  CKs :: key
  CKr :: key
  Ns :: uint
  Nr :: uint
  PN :: uint
  MkSkipped :: ref
  MaxSkip :: uint
  Crypto :: Crypto

subsection \<open>Construction\<close>

type_synonym Option = "state \<Rightarrow> state \<times> error"

definition WithRemoteKey :: "key \<Rightarrow> Option" where
  "WithRemoteKey dhRemotePubKey s =
     (let s = s\<lparr>DHr := dhRemotePubKey\<rparr>;
          (rk, cks) = KdfRK (Crypto s) (RK s) (DH (Crypto s) (DHs s) (DHr s));
          s = s\<lparr>RK := rk, CKs := cks\<rparr>
      in (s, None))"

text \<open>\<^verbatim>\<open>maxSkip\<close> is a Go \<^verbatim>\<open>int\<close>: a 64-bit word read as two's complement.\<close>

definition WithMaxSkip :: "64 word \<Rightarrow> Option" where
  "WithMaxSkip maxSkip s =
     (if sint maxSkip < 0 then (s, Some ''maxSkip must be non-negative'')
      else (s\<lparr>MaxSkip := maxSkip\<rparr>, None))"

fun apply_opts :: "Option list \<Rightarrow> state \<Rightarrow> state \<times> error" where
  "apply_opts [] s = (s, None)"
| "apply_opts (opt # opts) s =
     (case opt s of
        (s', Some err) \<Rightarrow> (s', Some (''failed to apply option: '' @ err))
      | (s', None) \<Rightarrow> apply_opts opts s')"

text \<open>
  \<open>New\<close> takes the suite that the source names \<^verbatim>\<open>DefaultCrypto{}\<close>, the outcome \<open>gen\<close>
  of its call of \<^verbatim>\<open>GenerateDH\<close>, and the heap in which \<^verbatim>\<open>make\<close> allocates the map. It
  returns the heap, the session (\<open>None\<close> for the \<^verbatim>\<open>nil\<close> it returns with an error) and
  the error.
\<close>

definition New :: "Crypto \<Rightarrow> DHPair \<times> error \<Rightarrow> heap \<Rightarrow> key \<Rightarrow> Option list
    \<Rightarrow> heap \<times> state option \<times> error" where
  "New DefaultCrypto gen h sharedKey opts =
     (if sharedKey = zero32 then (h, None, Some ''sharedKey must be non-zero'')
      else
        let (r, h) = make_map h;
            s = \<lparr>RK = sharedKey, DHr = zero32,
                 DHs = \<lparr>PrivateKey = zero32, PublicKey = zero32\<rparr>,
                 CKs = sharedKey, CKr = sharedKey, Ns = 0, Nr = 0, PN = 0,
                 MkSkipped = r, MaxSkip = 1000, Crypto = DefaultCrypto\<rparr>;
            s = s\<lparr>DHs := fst gen\<rparr>
        in case snd gen of
             Some err \<Rightarrow> (h, None, Some (''failed to generate dh pair: '' @ err))
           | None \<Rightarrow>
               (case apply_opts opts s of
                  (s, Some err) \<Rightarrow> (h, None, Some err)
                | (s, None) \<Rightarrow> (h, Some s, None)))"

subsection \<open>Sending\<close>

definition RatchetEncrypt :: "encoder \<Rightarrow> state \<Rightarrow> slice \<Rightarrow> slice \<Rightarrow> state \<times> Message" where
  "RatchetEncrypt EncodeWithAD s plaintext ad =
     (let (cks, mk) = KdfCK (Crypto s) (CKs s);
          s = s\<lparr>CKs := cks\<rparr>;
          h = \<lparr>hDH = PublicKey (DHs s), hN = Ns s, hPN = PN s\<rparr>;
          s = s\<lparr>Ns := Ns s + 1\<rparr>;
          ciphertext = Encrypt (Crypto s) mk plaintext (EncodeWithAD h ad)
      in (s, \<lparr>Header = h, Ciphertext = ciphertext\<rparr>))"

subsection \<open>Receiving\<close>

definition trySkippedMessageKeys ::
    "encoder \<Rightarrow> heap \<Rightarrow> state \<Rightarrow> Message \<Rightarrow> slice \<Rightarrow> heap \<times> slice \<times> error" where
  "trySkippedMessageKeys EncodeWithAD h s m ad =
     (let k = skippedKey (hDH (Header m)) (hN (Header m)) in
      case cells h (MkSkipped s) k of
        Some mk \<Rightarrow>
          (case Decrypt (Crypto s) mk (Ciphertext m) (EncodeWithAD (Header m) ad) of
             (plaintext, Some err) \<Rightarrow> (h, None, Some (''can't decrypt message: '' @ err))
           | (plaintext, None) \<Rightarrow> (map_delete h (MkSkipped s) k, plaintext, None))
      | None \<Rightarrow> (h, None, None))"

text \<open>The loop of \<^verbatim>\<open>skipMessageKeys\<close>: \<^verbatim>\<open>for s.Nr < until { ... s.Nr++ }\<close>.\<close>

function skip_loop :: "heap \<Rightarrow> state \<Rightarrow> uint \<Rightarrow> heap \<times> state" where
  "skip_loop h s until =
     (if Nr s < until then
        let (ckr, mk) = KdfCK (Crypto s) (CKr s);
            s = s\<lparr>CKr := ckr\<rparr>;
            h = map_store h (MkSkipped s) (skippedKey (DHr s) (Nr s)) mk;
            s = s\<lparr>Nr := Nr s + 1\<rparr>
        in skip_loop h s until
      else (h, s))"
  by pat_completeness auto

termination skip_loop
proof (relation "measure (\<lambda>(h, s, until). unat until - unat (Nr s))")
  show "wf (measure (\<lambda>(h, s, until). unat until - unat (Nr s)))"
    by simp
next
  fix h :: heap and s :: state and until :: uint
    and x :: "key \<times> key" and ckr mk :: key and s1 :: state and h1 :: heap and s2 :: state
  assume lt: "Nr s < until"
    and "x = KdfCK (Crypto s) (CKr s)" and "(ckr, mk) = x"
    and s1: "s1 = s\<lparr>CKr := ckr\<rparr>"
    and "h1 = map_store h (MkSkipped s1) (skippedKey (DHr s1) (Nr s1)) mk"
    and s2: "s2 = s1\<lparr>Nr := Nr s1 + 1\<rparr>"
  have below: "unat (Nr s) < unat until"
    using lt by (simp add: word_less_nat_alt)
  moreover have "unat until < 2 ^ 64"
    using unsigned_less [of until] by simp
  ultimately have "unat (Nr s) + unat (1 :: uint) < 2 ^ LENGTH(64)"
    by simp
  then have "unat (Nr s + 1) = unat (Nr s) + unat (1 :: uint)"
    by (rule unat_add_lem [THEN iffD1])
  then have "unat (Nr s2) = Suc (unat (Nr s))"
    using s1 s2 by simp
  with below show "((h1, s2, until), (h, s, until))
      \<in> measure (\<lambda>(h, s, until). unat until - unat (Nr s))"
    by simp
qed

declare skip_loop.simps [simp del]

definition skipMessageKeys :: "heap \<Rightarrow> state \<Rightarrow> uint \<Rightarrow> heap \<times> state \<times> error" where
  "skipMessageKeys h s until =
     (if Nr s + MaxSkip s < until
      then (h, s, Some (''too many messages: '' @ decimal (unat (until - Nr s))))
      else case skip_loop h s until of (h, s) \<Rightarrow> (h, s, None))"

definition dhRatchet :: "DHPair \<times> error \<Rightarrow> state \<Rightarrow> MessageHeader \<Rightarrow> state \<times> error" where
  "dhRatchet gen s mh =
     (let s = s\<lparr>PN := Ns s\<rparr>;
          s = s\<lparr>Ns := 0\<rparr>;
          s = s\<lparr>Nr := 0\<rparr>;
          s = s\<lparr>DHr := hDH mh\<rparr>;
          (rk, ckr) = KdfRK (Crypto s) (RK s) (DH (Crypto s) (DHs s) (DHr s));
          s = s\<lparr>RK := rk, CKr := ckr\<rparr>;
          s = s\<lparr>DHs := fst gen\<rparr>
      in case snd gen of
           Some err \<Rightarrow> (s, Some (''failed to generate dh pair: '' @ err))
         | None \<Rightarrow>
             (let (rk, cks) = KdfRK (Crypto s) (RK s) (DH (Crypto s) (DHs s) (DHr s));
                  s = s\<lparr>RK := rk, CKs := cks\<rparr>
              in (s, None)))"

text \<open>
  \<open>RatchetDecrypt\<close> returns the heap and the live session after the call, and the two
  results of the Go method. \<open>sc\<close> is the copy \<^verbatim>\<open>var sc state = *s\<close>: a copy of the
  fields, so \<open>MkSkipped sc\<close> is the reference that \<open>MkSkipped s\<close> is, and what the
  helpers write through it to the heap is written to the map of the live session. The
  live session is \<open>s\<close> on every early return and \<open>sc\<close> after \<^verbatim>\<open>*s = sc\<close>.
\<close>

definition RatchetDecrypt :: "encoder \<Rightarrow> DHPair \<times> error \<Rightarrow> heap \<Rightarrow> state \<Rightarrow> Message \<Rightarrow> slice
    \<Rightarrow> heap \<times> state \<times> slice \<times> error" where
  "RatchetDecrypt EncodeWithAD gen h s m ad =
     (let sc = s in
      (case trySkippedMessageKeys EncodeWithAD h sc m ad of
         (h, plaintext, Some err) \<Rightarrow>
           (h, s, None, Some (''can't try skipped message: '' @ err))
       | (h, plaintext, None) \<Rightarrow>
           (if plaintext \<noteq> None then (h, s, plaintext, None)
            else
              (case (if hDH (Header m) \<noteq> DHr sc then
                       (case skipMessageKeys h sc (hPN (Header m)) of
                          (h, sc, Some err) \<Rightarrow>
                            (h, sc,
                             Some (''failed to skip previous chain message keys: '' @ err))
                        | (h, sc, None) \<Rightarrow>
                            (case dhRatchet gen sc (Header m) of
                               (sc, Some err) \<Rightarrow>
                                 (h, sc, Some (''failed to perform ratchet step: '' @ err))
                             | (sc, None) \<Rightarrow> (h, sc, None)))
                     else (h, sc, None)) of
                 (h, sc, Some err) \<Rightarrow> (h, s, None, Some err)
               | (h, sc, None) \<Rightarrow>
                   (case skipMessageKeys h sc (hN (Header m)) of
                      (h, sc, Some err) \<Rightarrow>
                        (h, s, None,
                         Some (''failed to skip current chain message keys: '' @ err))
                    | (h, sc, None) \<Rightarrow>
                        (let (ckr, mk) = KdfCK (Crypto sc) (CKr sc);
                             sc = sc\<lparr>CKr := ckr\<rparr>;
                             sc = sc\<lparr>Nr := Nr sc + 1\<rparr>
                         in (case Decrypt (Crypto sc) mk (Ciphertext m)
                                    (EncodeWithAD (Header m) ad) of
                               (plaintext, Some err) \<Rightarrow>
                                 (h, s, None, Some (''failed to decrypt: '' @ err))
                             | (plaintext, None) \<Rightarrow> (h, sc, plaintext, None))))))))"

subsection \<open>The keys of a chain\<close>

text \<open>
  \<open>chain_key c ck n\<close> is the chain key after \<open>n\<close> steps of \<open>KdfCK\<close> from \<open>ck\<close>, and
  \<open>message_key c ck i\<close> the message key that step \<open>i\<close> (counted from 0) gives.
\<close>

definition chain_key :: "Crypto \<Rightarrow> key \<Rightarrow> nat \<Rightarrow> key" where
  "chain_key c ck n = ((\<lambda>k. fst (KdfCK c k)) ^^ n) ck"

definition message_key :: "Crypto \<Rightarrow> key \<Rightarrow> nat \<Rightarrow> key" where
  "message_key c ck i = snd (KdfCK c (chain_key c ck i))"

subsection \<open>A suite and sessions for concrete runs\<close>

text \<open>
  The theorems below hold for every suite. To run the model on concrete sessions a suite
  is needed; \<open>demoCrypto\<close> has the shape of one and no security: the shared secret of
  a pair and a public key is their bytewise sum, so it is the same from both sides, and
  a ciphertext is the message key, the associated data and the plaintext in a row, which
  \<open>Decrypt\<close> accepts only under the same key and associated data. It returns a
  plaintext that is not \<^verbatim>\<open>nil\<close>, as \<^verbatim>\<open>make([]byte, n)\<close> does.
\<close>

definition demoCrypto :: Crypto where
  "demoCrypto =
     \<lparr>DH = (\<lambda>p k. map2 (+) (PublicKey p) k),
      KdfRK = (\<lambda>rk dh. (map2 (+) rk dh, map (\<lambda>b. b + 1) (map2 (+) rk dh))),
      KdfCK = (\<lambda>ck. (map (\<lambda>b. b + 1) ck, map (\<lambda>b. b + 2) ck)),
      Encrypt = (\<lambda>mk plaintext ad. Some (mk @ content ad @ content plaintext)),
      Decrypt = (\<lambda>mk ciphertext ad.
        if take (length mk + length (content ad)) (content ciphertext) = mk @ content ad
        then (Some (drop (length mk + length (content ad)) (content ciphertext)), None)
        else (None, Some ''invalid signature''))\<rparr>"

definition demoEncode :: encoder where
  "demoEncode mh ad = Some (hDH mh @ [ucast (hN mh), ucast (hPN mh)] @ content ad)"

definition key_of :: "byte \<Rightarrow> key" where
  "key_of b = replicate 32 b"

definition pair_of :: "byte \<Rightarrow> DHPair" where
  "pair_of b = \<lparr>PrivateKey = key_of b, PublicKey = key_of b\<rparr>"

definition heap0 :: heap where
  "heap0 = \<lparr>cells = (\<lambda>r. Map.empty), next_ref = 0\<rparr>"

text \<open>
  \<open>session0\<close> is a session in the middle of a receiving chain from the peer with the
  public key \<open>key_of 1\<close>; its map of skipped keys is cell 0 of the heap.
\<close>

definition session0 :: state where
  "session0 =
     \<lparr>RK = key_of 7, DHr = key_of 1, DHs = pair_of 2, CKs = key_of 8, CKr = key_of 9,
      Ns = 0, Nr = 5, PN = 0, MkSkipped = 0, MaxSkip = 1000, Crypto = demoCrypto\<rparr>"

text \<open>
  \<open>message_at n ciphertext\<close> is a message of that peer with the counter \<open>n\<close>,
  \<open>sealed n mk bs\<close> the ciphertext of the bytes \<open>bs\<close> for such a message under the
  message key \<open>mk\<close>, and \<open>heap1\<close> the heap in which the map of \<open>session0\<close> holds one
  skipped key, for the message 3 of the chain.
\<close>

definition message_at :: "uint \<Rightarrow> slice \<Rightarrow> Message" where
  "message_at n ciphertext = \<lparr>Header = \<lparr>hDH = key_of 1, hN = n, hPN = 0\<rparr>, Ciphertext = ciphertext\<rparr>"

definition heap1 :: heap where
  "heap1 = map_store heap0 0 (skippedKey (key_of 1) 3) (key_of 4)"

definition sealed :: "uint \<Rightarrow> key \<Rightarrow> byte list \<Rightarrow> slice" where
  "sealed n mk bs =
     Encrypt demoCrypto mk (Some bs) (demoEncode \<lparr>hDH = key_of 1, hN = n, hPN = 0\<rparr> None)"

text \<open>
  \<open>nilCrypto\<close> is \<open>demoCrypto\<close> with a \<open>Decrypt\<close> that returns the \<^verbatim>\<open>nil\<close> slice for a
  plaintext of no bytes, as appending no bytes to a \<^verbatim>\<open>nil\<close> destination does (the way
  \<^verbatim>\<open>cipher.AEAD.Open(nil, ...)\<close> builds its result); it still opens what \<open>Encrypt\<close>
  sealed, to the same bytes. \<open>session1\<close> is \<open>session0\<close> with this suite.
\<close>

definition nilCrypto :: Crypto where
  "nilCrypto =
     demoCrypto\<lparr>Decrypt := (\<lambda>mk ciphertext ad.
        if take (length mk + length (content ad)) (content ciphertext) = mk @ content ad
        then (case drop (length mk + length (content ad)) (content ciphertext) of
                [] \<Rightarrow> (None, None)
              | b # bs \<Rightarrow> (Some (b # bs), None))
        else (None, Some ''invalid signature''))\<rparr>"


text \<open>
  \<open>bob0\<close> and \<open>alice0\<close> are the sessions that \<open>New\<close> builds from the shared key
  \<open>key_of 7\<close>: first \<open>bob0\<close> with the pair \<open>pair_of 2\<close> and no option, then \<open>alice0\<close>
  with the pair \<open>pair_of 5\<close> and the public key of \<open>bob0\<close>.
\<close>

definition bob0 :: state where
  "bob0 =
     \<lparr>RK = key_of 7, DHr = zero32, DHs = pair_of 2, CKs = key_of 7, CKr = key_of 7,
      Ns = 0, Nr = 0, PN = 0, MkSkipped = 0, MaxSkip = 1000, Crypto = demoCrypto\<rparr>"

definition alice0 :: state where
  "alice0 =
     \<lparr>RK = key_of 14, DHr = key_of 2, DHs = pair_of 5, CKs = key_of 15, CKr = key_of 7,
      Ns = 0, Nr = 0, PN = 0, MkSkipped = 1, MaxSkip = 1000, Crypto = demoCrypto\<rparr>"

section \<open>Auxiliary facts\<close>

subsection \<open>Distinct counters give distinct keys of skipped messages\<close>

lemma digit_inj: "a < 10 \<Longrightarrow> b < 10 \<Longrightarrow> digit a = digit b \<Longrightarrow> a = b"
proof -
  assume a: "a < 10" and b: "b < 10" and e: "digit a = digit b"
  have d: "distinct ''0123456789''" by simp
  have "length ''0123456789'' = 10" by simp
  with a b d e show "a = b"
    unfolding digit_def by (metis nth_eq_iff_index_eq)
qed

lemma decimal_nonempty: "decimal n \<noteq> []"
  by (subst decimal.simps) simp

lemma decimal_inj: "decimal a = decimal b \<Longrightarrow> a = b"
proof (induction a arbitrary: b rule: decimal.induct)
  case (1 n)
  show ?case
  proof (cases "n < 10")
    case small: True
    show ?thesis
    proof (cases "b < 10")
      case True
      with small "1.prems" show ?thesis
        by (simp add: decimal.simps [of n] decimal.simps [of b] digit_inj)
    next
      case False
      with small "1.prems" decimal_nonempty [of "b div 10"] show ?thesis
        by (simp add: decimal.simps [of n] decimal.simps [of b])
    qed
  next
    case big: False
    show ?thesis
    proof (cases "b < 10")
      case True
      with big "1.prems" decimal_nonempty [of "n div 10"] show ?thesis
        by (simp add: decimal.simps [of n] decimal.simps [of b])
    next
      case False
      with big "1.prems" have e: "decimal (n div 10) = decimal (b div 10)"
        and d: "digit (n mod 10) = digit (b mod 10)"
        by (simp_all add: decimal.simps [of n] decimal.simps [of b])
      from "1.IH" [OF big e] have "n div 10 = b div 10" .
      moreover from d have "n mod 10 = b mod 10"
        by (simp add: digit_inj)
      ultimately show ?thesis
        by (metis div_mult_mod_eq)
    qed
  qed
qed

lemma skippedKey_inj: "skippedKey dh i = skippedKey dh j \<longleftrightarrow> i = j"
proof
  assume "skippedKey dh i = skippedKey dh j"
  then have "decimal (unat i) = decimal (unat j)"
    by (simp add: skippedKey_def)
  then have "unat i = unat j"
    by (rule decimal_inj)
  then show "i = j"
    by (simp add: word_unat_eq_iff)
qed simp

subsection \<open>Chain keys\<close>

lemma chain_key_0: "chain_key c ck 0 = ck"
  by (simp add: chain_key_def)

lemma chain_key_Suc: "chain_key c (fst (KdfCK c ck)) n = chain_key c ck (Suc n)"
  by (induction n) (simp_all add: chain_key_def)

lemma message_key_0: "message_key c ck 0 = snd (KdfCK c ck)"
  by (simp add: message_key_def chain_key_0)

lemma message_key_Suc: "message_key c (fst (KdfCK c ck)) n = message_key c ck (Suc n)"
  by (simp add: message_key_def chain_key_Suc)

subsection \<open>The loop of \<open>skipMessageKeys\<close>\<close>

lemma skip_loop_step:
  "Nr s < until \<Longrightarrow>
   skip_loop h s until =
     skip_loop (map_store h (MkSkipped s) (skippedKey (DHr s) (Nr s)) (snd (KdfCK (Crypto s) (CKr s))))
       (s\<lparr>CKr := fst (KdfCK (Crypto s) (CKr s)), Nr := Nr s + 1\<rparr>) until"
  by (subst skip_loop.simps) (simp add: Let_def split: prod.split)

lemma skip_loop_stop: "\<not> Nr s < until \<Longrightarrow> skip_loop h s until = (h, s)"
  by (subst skip_loop.simps) simp

lemma uint_succ:
  assumes "(x :: uint) < y"
  shows "unat (x + 1) = Suc (unat x)"
proof -
  have "unat x < unat y"
    using assms by (simp add: word_less_nat_alt)
  moreover have "unat y < 2 ^ 64"
    using unsigned_less [of y] by simp
  ultimately have "unat x + unat (1 :: uint) < 2 ^ LENGTH(64)"
    by simp
  then have "unat (x + 1) = unat x + unat (1 :: uint)"
    by (rule unat_add_lem [THEN iffD1])
  then show ?thesis
    by simp
qed

lemma uint_succ_le: "(x :: uint) < y \<Longrightarrow> x + 1 \<le> w \<longleftrightarrow> x < w"
  by (simp add: word_le_nat_alt word_less_nat_alt uint_succ) arith

lemma skip_loop_state:
  "Nr s \<le> until \<Longrightarrow> d = unat until - unat (Nr s) \<Longrightarrow>
   snd (skip_loop h s until) = s\<lparr>CKr := chain_key (Crypto s) (CKr s) d, Nr := until\<rparr>"
proof (induction d arbitrary: h s)
  case 0
  then have "Nr s = until"
    by (simp add: word_le_nat_alt word_unat_eq_iff)
  then show ?case
    by (simp add: skip_loop_stop chain_key_0)
next
  case (Suc d)
  then have lt: "Nr s < until"
    by (simp add: word_less_nat_alt)
  let ?s = "s\<lparr>CKr := fst (KdfCK (Crypto s) (CKr s)), Nr := Nr s + 1\<rparr>"
  have le: "Nr ?s \<le> until"
    using lt by (simp add: uint_succ_le)
  have d: "d = unat until - unat (Nr ?s)"
    using Suc.prems lt by (simp add: uint_succ)
  show ?case
    using Suc.IH [OF le d, of "map_store h (MkSkipped s) (skippedKey (DHr s) (Nr s)) (snd (KdfCK (Crypto s) (CKr s)))"] lt
    by (simp add: skip_loop_step chain_key_Suc)
qed

lemma skip_loop_heap_frame:
  "d = unat until - unat (Nr s) \<Longrightarrow>
   next_ref (fst (skip_loop h s until)) = next_ref h \<and>
   (\<forall>r. r \<noteq> MkSkipped s \<longrightarrow> cells (fst (skip_loop h s until)) r = cells h r)"
proof (induction d arbitrary: h s)
  case 0
  then have "\<not> Nr s < until"
    by (simp add: word_less_nat_alt)
  then show ?case
    by (simp add: skip_loop_stop)
next
  case (Suc d)
  then have lt: "Nr s < until"
    by (simp add: word_less_nat_alt)
  let ?s = "s\<lparr>CKr := fst (KdfCK (Crypto s) (CKr s)), Nr := Nr s + 1\<rparr>"
  let ?h = "map_store h (MkSkipped s) (skippedKey (DHr s) (Nr s)) (snd (KdfCK (Crypto s) (CKr s)))"
  have d: "d = unat until - unat (Nr ?s)"
    using Suc.prems lt by (simp add: uint_succ)
  show ?case
    using Suc.IH [OF d, of ?h] lt
    by (simp add: skip_loop_step map_store_def)
qed

lemma skip_loop_other_keys:
  "d = unat until - unat (Nr s) \<Longrightarrow>
   \<forall>w. Nr s \<le> w \<and> w < until \<longrightarrow> k \<noteq> skippedKey (DHr s) w \<Longrightarrow>
   cells (fst (skip_loop h s until)) (MkSkipped s) k = cells h (MkSkipped s) k"
proof (induction d arbitrary: h s)
  case 0
  then have "\<not> Nr s < until"
    by (simp add: word_less_nat_alt)
  then show ?case
    by (simp add: skip_loop_stop)
next
  case (Suc d)
  then have lt: "Nr s < until"
    by (simp add: word_less_nat_alt)
  let ?s = "s\<lparr>CKr := fst (KdfCK (Crypto s) (CKr s)), Nr := Nr s + 1\<rparr>"
  let ?h = "map_store h (MkSkipped s) (skippedKey (DHr s) (Nr s)) (snd (KdfCK (Crypto s) (CKr s)))"
  have d: "d = unat until - unat (Nr ?s)"
    using Suc.prems lt by (simp add: uint_succ)
  have rest: "\<forall>w. Nr ?s \<le> w \<and> w < until \<longrightarrow> k \<noteq> skippedKey (DHr ?s) w"
    using Suc.prems(2) lt by (simp add: uint_succ_le) (metis order_less_imp_le)
  have first: "k \<noteq> skippedKey (DHr s) (Nr s)"
    using Suc.prems(2) lt by simp
  show ?case
    using Suc.IH [OF d rest, of ?h] lt first
    by (simp add: skip_loop_step map_store_def)
qed

lemma skip_loop_new_keys:
  "d = unat until - unat (Nr s) \<Longrightarrow> Nr s \<le> w \<Longrightarrow> w < until \<Longrightarrow>
   cells (fst (skip_loop h s until)) (MkSkipped s) (skippedKey (DHr s) w) =
     Some (message_key (Crypto s) (CKr s) (unat w - unat (Nr s)))"
proof (induction d arbitrary: h s)
  case 0
  then show ?case
    by (simp add: word_less_nat_alt word_le_nat_alt)
next
  case (Suc d)
  then have lt: "Nr s < until"
    by (simp add: word_less_nat_alt)
  let ?s = "s\<lparr>CKr := fst (KdfCK (Crypto s) (CKr s)), Nr := Nr s + 1\<rparr>"
  let ?h = "map_store h (MkSkipped s) (skippedKey (DHr s) (Nr s)) (snd (KdfCK (Crypto s) (CKr s)))"
  have d: "d = unat until - unat (Nr ?s)"
    using Suc.prems lt by (simp add: uint_succ)
  show ?case
  proof (cases "w = Nr s")
    case True
    have "\<forall>v. Nr ?s \<le> v \<and> v < until \<longrightarrow> skippedKey (DHr s) w \<noteq> skippedKey (DHr ?s) v"
      using True lt by (auto simp: skippedKey_inj uint_succ_le)
    from skip_loop_other_keys [OF d this, of ?h] True lt show ?thesis
      by (simp add: skip_loop_step map_store_def message_key_0)
  next
    case False
    with Suc.prems(2) have "Nr s < w"
      by simp
    then have le: "Nr ?s \<le> w"
      using lt by (simp add: uint_succ_le)
    have "unat (Nr s) < unat w"
      using \<open>Nr s < w\<close> by (simp add: word_less_nat_alt)
    then have "Suc (unat w - unat (Nr ?s)) = unat w - unat (Nr s)"
      using lt by (simp add: uint_succ)
    with Suc.IH [OF d le Suc.prems(3), of ?h] lt show ?thesis
      by (simp add: skip_loop_step message_key_Suc)
  qed
qed

lemma uint_check_no_wrap:
  assumes "unat (a :: uint) + unat b < 2 ^ 64"
  shows "a + b < n \<longleftrightarrow> unat b < unat n - unat a"
proof -
  have "unat (a + b) = unat a + unat b"
    using assms by (simp add: unat_add_lem [THEN iffD1])
  then show ?thesis
    by (auto simp: word_less_nat_alt)
qed

lemma uint_interval_card: "card {a..<b :: uint} = unat b - unat a"
proof -
  have "unat ` {a..<b} = {unat a..<unat b}"
  proof (intro equalityI subsetI)
    fix n
    assume "n \<in> unat ` {a..<b}"
    then show "n \<in> {unat a..<unat b}"
      by (auto simp: word_le_nat_alt word_less_nat_alt)
  next
    fix n
    assume n: "n \<in> {unat a..<unat b}"
    have "unat b < 2 ^ LENGTH(64)"
      by (rule unsigned_less)
    with n have "unat (of_nat n :: uint) = n"
      by (simp add: unat_of_nat)
    with n have "(of_nat n :: uint) \<in> {a..<b}"
      by (simp add: word_le_nat_alt word_less_nat_alt)
    with \<open>unat (of_nat n :: uint) = n\<close> show "n \<in> unat ` {a..<b}"
      by (metis imageI)
  qed
  moreover have "inj_on unat {a..<b}"
    by (rule inj_onI) (simp add: word_unat_eq_iff)
  ultimately show ?thesis
    by (metis card_image card_atLeastLessThan)
qed

lemma skippedKey_inj_on: "inj_on (skippedKey dh) A"
  by (rule inj_onI) (simp add: skippedKey_inj)

subsection \<open>What a successful \<open>New\<close> has built\<close>

lemma New_plain_success:
  assumes "New c gen h sharedKey [] = (h1, Some s, None)"
  shows "sharedKey \<noteq> zero32 \<and> snd gen = None \<and> h1 = snd (make_map h) \<and>
     s = \<lparr>RK = sharedKey, DHr = zero32, DHs = fst gen, CKs = sharedKey, CKr = sharedKey,
          Ns = 0, Nr = 0, PN = 0, MkSkipped = next_ref h, MaxSkip = 1000, Crypto = c\<rparr>"
  using assms
  by (auto simp: New_def make_map_def Let_def split: if_splits option.splits prod.splits)

lemma New_remote_success:
  assumes "New c gen h sharedKey [WithRemoteKey dhr] = (h1, Some s, None)"
  shows "sharedKey \<noteq> zero32 \<and> snd gen = None \<and> h1 = snd (make_map h) \<and>
     s = \<lparr>RK = fst (KdfRK c sharedKey (DH c (fst gen) dhr)), DHr = dhr, DHs = fst gen,
          CKs = snd (KdfRK c sharedKey (DH c (fst gen) dhr)), CKr = sharedKey,
          Ns = 0, Nr = 0, PN = 0, MkSkipped = next_ref h, MaxSkip = 1000, Crypto = c\<rparr>"
  using assms
  by (auto simp: New_def make_map_def WithRemoteKey_def Let_def
      split: if_splits option.splits prod.splits)

subsection \<open>The paths of \<open>RatchetDecrypt\<close>\<close>

lemma trySkipped_miss:
  "cells h (MkSkipped s) (skippedKey (hDH (Header m)) (hN (Header m))) = None \<Longrightarrow>
   trySkippedMessageKeys EncodeWithAD h s m ad = (h, None, None)"
  by (simp add: trySkippedMessageKeys_def)

lemma trySkipped_hit:
  "cells h (MkSkipped s) (skippedKey (hDH (Header m)) (hN (Header m))) = Some mk \<Longrightarrow>
   Decrypt (Crypto s) mk (Ciphertext m) (EncodeWithAD (Header m) ad) = (plaintext, None) \<Longrightarrow>
   trySkippedMessageKeys EncodeWithAD h s m ad =
     (map_delete h (MkSkipped s) (skippedKey (hDH (Header m)) (hN (Header m))), plaintext, None)"
  by (simp add: trySkippedMessageKeys_def)

lemma trySkipped_hit_fails:
  "cells h (MkSkipped s) (skippedKey (hDH (Header m)) (hN (Header m))) = Some mk \<Longrightarrow>
   Decrypt (Crypto s) mk (Ciphertext m) (EncodeWithAD (Header m) ad) = (plaintext, Some err) \<Longrightarrow>
   trySkippedMessageKeys EncodeWithAD h s m ad = (h, None, Some (''can't decrypt message: '' @ err))"
  by (simp add: trySkippedMessageKeys_def)

lemma RatchetDecrypt_hit:
  "cells h (MkSkipped s) (skippedKey (hDH (Header m)) (hN (Header m))) = Some mk \<Longrightarrow>
   Decrypt (Crypto s) mk (Ciphertext m) (EncodeWithAD (Header m) ad) = (Some p, None) \<Longrightarrow>
   RatchetDecrypt EncodeWithAD gen h s m ad =
     (map_delete h (MkSkipped s) (skippedKey (hDH (Header m)) (hN (Header m))), s, Some p, None)"
  by (simp add: RatchetDecrypt_def trySkipped_hit)

lemma RatchetDecrypt_hit_fails:
  "cells h (MkSkipped s) (skippedKey (hDH (Header m)) (hN (Header m))) = Some mk \<Longrightarrow>
   Decrypt (Crypto s) mk (Ciphertext m) (EncodeWithAD (Header m) ad) = (q, Some err) \<Longrightarrow>
   RatchetDecrypt EncodeWithAD gen h s m ad =
     (h, s, None, Some (''can't try skipped message: can't decrypt message: '' @ err))"
  by (simp add: RatchetDecrypt_def trySkipped_hit_fails)

lemma RatchetDecrypt_same_chain:
  "cells h (MkSkipped s) (skippedKey (hDH (Header m)) (hN (Header m))) = None \<Longrightarrow>
   hDH (Header m) = DHr s \<Longrightarrow>
   RatchetDecrypt EncodeWithAD gen h s m ad =
     (case skipMessageKeys h s (hN (Header m)) of
        (h1, sc, Some err) \<Rightarrow>
          (h1, s, None, Some (''failed to skip current chain message keys: '' @ err))
      | (h1, sc, None) \<Rightarrow>
          (case Decrypt (Crypto sc) (snd (KdfCK (Crypto sc) (CKr sc))) (Ciphertext m)
                  (EncodeWithAD (Header m) ad) of
             (p, Some err) \<Rightarrow> (h1, s, None, Some (''failed to decrypt: '' @ err))
           | (p, None) \<Rightarrow>
               (h1, sc\<lparr>CKr := fst (KdfCK (Crypto sc) (CKr sc)), Nr := Nr sc + 1\<rparr>, p, None)))"
  by (simp add: RatchetDecrypt_def trySkipped_miss Let_def split: prod.split option.split)

lemma skipMessageKeys_too_many:
  "Nr s + MaxSkip s < until \<Longrightarrow>
   skipMessageKeys h s until = (h, s, Some (''too many messages: '' @ decimal (unat (until - Nr s))))"
  by (simp add: skipMessageKeys_def)

lemma skipMessageKeys_fits:
  "\<not> Nr s + MaxSkip s < until \<Longrightarrow>
   skipMessageKeys h s until = (fst (skip_loop h s until), snd (skip_loop h s until), None)"
  by (simp add: skipMessageKeys_def split: prod.split)


text \<open>Every return with an error returns the live session with the fields it had.\<close>

lemma RatchetDecrypt_error_keeps_fields:
  assumes "snd (snd (snd (RatchetDecrypt EncodeWithAD gen h s m ad))) \<noteq> None"
  shows "fst (snd (RatchetDecrypt EncodeWithAD gen h s m ad)) = s"
proof -
  obtain h1 p1 e1 where t: "trySkippedMessageKeys EncodeWithAD h s m ad = (h1, p1, e1)"
    by (cases "trySkippedMessageKeys EncodeWithAD h s m ad")
  show ?thesis
  proof (cases "e1 = None \<and> p1 = None")
    case False
    then show ?thesis
      using assms by (cases e1) (auto simp: RatchetDecrypt_def t)
  next
    case miss: True
    obtain h2 sc2 e2 where r: "(if hDH (Header m) \<noteq> DHr s then
         (case skipMessageKeys h1 s (hPN (Header m)) of
            (h, sc, Some err) \<Rightarrow>
              (h, sc, Some (''failed to skip previous chain message keys: '' @ err))
          | (h, sc, None) \<Rightarrow>
              (case dhRatchet gen sc (Header m) of
                 (sc, Some err) \<Rightarrow> (h, sc, Some (''failed to perform ratchet step: '' @ err))
               | (sc, None) \<Rightarrow> (h, sc, None)))
       else (h1, s, None)) = (h2, sc2, e2)"
      using prod_cases3 by blast
    show ?thesis
    proof (cases e2)
      case (Some err)
      then show ?thesis
        using miss by (simp add: RatchetDecrypt_def t r)
    next
      case None
      obtain h3 sc3 e3 where k: "skipMessageKeys h2 sc2 (hN (Header m)) = (h3, sc3, e3)"
        by (cases "skipMessageKeys h2 sc2 (hN (Header m))")
      show ?thesis
      proof (cases e3)
        case (Some err)
        then show ?thesis
          using miss None by (simp add: RatchetDecrypt_def t r k)
      next
        case no_err: None
        obtain ckr mk where kd: "KdfCK (Crypto sc3) (CKr sc3) = (ckr, mk)"
          by (cases "KdfCK (Crypto sc3) (CKr sc3)")
        obtain p4 e4 where d: "Decrypt (Crypto sc3) mk (Ciphertext m)
            (EncodeWithAD (Header m) ad) = (p4, e4)"
          by (cases "Decrypt (Crypto sc3) mk (Ciphertext m) (EncodeWithAD (Header m) ad)")
        show ?thesis
          using miss None no_err assms
          by (cases e4) (simp_all add: RatchetDecrypt_def t r k kd d)
      qed
    qed
  qed
qed

text \<open>
  A message of the current chain that is ahead of the counter and within the bound, and
  that the derived key does not open: the call returns the error and the session as it
  was, and the heap after the loop of \<open>skipMessageKeys\<close>, which has written the skipped
  keys to the map of the session.
\<close>

lemma RatchetDecrypt_failure_leaves_keys:
  assumes miss: "cells h (MkSkipped s) (skippedKey (hDH (Header m)) (hN (Header m))) = None"
    and same: "hDH (Header m) = DHr s"
    and ahead: "Nr s < hN (Header m)"
    and fits: "\<not> Nr s + MaxSkip s < hN (Header m)"
    and bad: "Decrypt (Crypto s)
        (message_key (Crypto s) (CKr s) (unat (hN (Header m)) - unat (Nr s)))
        (Ciphertext m) (EncodeWithAD (Header m) ad) = (q, Some e)"
  shows "RatchetDecrypt EncodeWithAD gen h s m ad =
           (fst (skip_loop h s (hN (Header m))), s, None, Some (''failed to decrypt: '' @ e)) \<and>
         cells (fst (skip_loop h s (hN (Header m)))) (MkSkipped s) (skippedKey (DHr s) (Nr s)) =
           Some (message_key (Crypto s) (CKr s) 0)"
proof -
  have le: "Nr s \<le> hN (Header m)"
    using ahead by simp
  have sc: "snd (skip_loop h s (hN (Header m))) =
      s\<lparr>CKr := chain_key (Crypto s) (CKr s) (unat (hN (Header m)) - unat (Nr s)),
        Nr := hN (Header m)\<rparr>"
    using le by (rule skip_loop_state) simp
  have "RatchetDecrypt EncodeWithAD gen h s m ad =
      (fst (skip_loop h s (hN (Header m))), s, None, Some (''failed to decrypt: '' @ e))"
    using bad
    by (simp add: RatchetDecrypt_same_chain [OF miss same] skipMessageKeys_fits [OF fits] sc
        message_key_def)
  moreover have "cells (fst (skip_loop h s (hN (Header m)))) (MkSkipped s)
      (skippedKey (DHr s) (Nr s)) = Some (message_key (Crypto s) (CKr s) 0)"
    using skip_loop_new_keys [where h = h and s = s and until = "hN (Header m)" and w = "Nr s",
        OF refl _ ahead]
    by simp
  ultimately show ?thesis
    by simp
qed

text \<open>
  The first message of a chain, received by a session that \<open>New\<close> built without a
  remote key: the map is empty, the key of the header is not the zero \<open>DHr\<close>, nothing
  is skipped, and the DH ratchet step gives the receiving chain its key.
\<close>

lemma RatchetDecrypt_first_message:
  assumes empty: "cells h r = Map.empty"
    and pub: "dh \<noteq> zero32"
    and gen: "snd gen = None"
  shows "RatchetDecrypt EncodeWithAD gen h
           \<lparr>RK = sharedKey, DHr = zero32, DHs = dhs, CKs = sharedKey, CKr = sharedKey,
            Ns = 0, Nr = 0, PN = 0, MkSkipped = r, MaxSkip = 1000, Crypto = c\<rparr>
           \<lparr>Header = \<lparr>hDH = dh, hN = 0, hPN = 0\<rparr>, Ciphertext = ct\<rparr> ad =
         (case Decrypt c (snd (KdfCK c (snd (KdfRK c sharedKey (DH c dhs dh))))) ct
                 (EncodeWithAD \<lparr>hDH = dh, hN = 0, hPN = 0\<rparr> ad) of
            (p, Some err) \<Rightarrow> 
              (h, \<lparr>RK = sharedKey, DHr = zero32, DHs = dhs, CKs = sharedKey, CKr = sharedKey,
            Ns = 0, Nr = 0, PN = 0, MkSkipped = r, MaxSkip = 1000, Crypto = c\<rparr>, None, Some (''failed to decrypt: '' @ err))
          | (p, None) \<Rightarrow>
              (h, \<lparr>RK = fst (KdfRK c (fst (KdfRK c sharedKey (DH c dhs dh))) (DH c (fst gen) dh)),
                   DHr = dh, DHs = fst gen,
                   CKs = snd (KdfRK c (fst (KdfRK c sharedKey (DH c dhs dh))) (DH c (fst gen) dh)),
                   CKr = fst (KdfCK c (snd (KdfRK c sharedKey (DH c dhs dh)))),
                   Ns = 0, Nr = 1, PN = 0, MkSkipped = r, MaxSkip = 1000, Crypto = c\<rparr>, p, None))"
  using assms
  by (simp add: RatchetDecrypt_def trySkipped_miss skipMessageKeys_def skip_loop_stop
      dhRatchet_def Let_def split: prod.split option.split)


subsection \<open>The suite for concrete runs\<close>

lemma demo_opens_sealed:
  "Decrypt demoCrypto mk (sealed n mk bs) (demoEncode \<lparr>hDH = key_of 1, hN = n, hPN = 0\<rparr> None) =
     (Some bs, None)"
  by (simp add: demoCrypto_def sealed_def content_def)

lemma demo_rejects_empty:
  "Decrypt demoCrypto (key_of b) (Some []) ad = (None, Some ''invalid signature'')"
  by (simp add: demoCrypto_def content_def key_of_def)

lemma nilCrypto_opens:
  "\<exists>q. Decrypt nilCrypto mk (Encrypt nilCrypto mk p a) a = (q, None) \<and> content q = content p"
  by (simp add: nilCrypto_def demoCrypto_def content_def split: list.split)

section \<open>Construction\<close>



section \<open>Sending\<close>

text \<open>
  Claim C7. For every session with sending chain key \<open>CKs s\<close> and counters \<open>Ns s\<close>,
  \<open>PN s\<close>, \<open>RatchetEncrypt\<close> advances the chain once by \<open>KdfCK\<close>, returns the message
  whose header is the local public key with the counters before the call and whose
  ciphertext is the encryption of the plaintext under the derived message key and the
  encoded header with the associated data, and leaves \<open>CKs\<close> at the new chain key and
  \<open>Ns\<close> one higher (in \<^verbatim>\<open>uint\<close> arithmetic).
\<close>

theorem RatchetEncrypt_computes:
  "RatchetEncrypt EncodeWithAD s plaintext ad =
     (s\<lparr>CKs := fst (KdfCK (Crypto s) (CKs s)), Ns := Ns s + 1\<rparr>,
      \<lparr>Header = \<lparr>hDH = PublicKey (DHs s), hN = Ns s, hPN = PN s\<rparr>,
       Ciphertext = Encrypt (Crypto s) (snd (KdfCK (Crypto s) (CKs s))) plaintext
         (EncodeWithAD \<lparr>hDH = PublicKey (DHs s), hN = Ns s, hPN = PN s\<rparr> ad)\<rparr>)"
  by (simp add: RatchetEncrypt_def Let_def split: prod.split)

text \<open>
  Claim C8. \<open>RatchetEncrypt\<close> changes two fields of the session: \<open>CKs\<close>, advanced
  once by \<open>KdfCK\<close>, and \<open>Ns\<close>, incremented by one. \<open>RK\<close>, \<open>DHs\<close>, \<open>DHr\<close>, \<open>CKr\<close>,
  \<open>Nr\<close>, \<open>PN\<close>, \<open>MaxSkip\<close>, the suite and the reference \<open>MkSkipped\<close> are as before; the
  map behind the reference is not touched, since the function does not take the heap.
\<close>

theorem RatchetEncrypt_frame:
  "case RatchetEncrypt EncodeWithAD s plaintext ad of
     (s', m) \<Rightarrow>
       RK s' = RK s \<and> DHs s' = DHs s \<and> DHr s' = DHr s \<and> CKr s' = CKr s \<and>
       Nr s' = Nr s \<and> PN s' = PN s \<and> MkSkipped s' = MkSkipped s \<and>
       MaxSkip s' = MaxSkip s \<and> Crypto s' = Crypto s \<and>
       CKs s' = fst (KdfCK (Crypto s) (CKs s)) \<and> Ns s' = Ns s + 1"
  by (simp add: RatchetEncrypt_def Let_def split: prod.split)

section \<open>Receiving: skipping message keys\<close>

text \<open>
  Claim C6, as the spec states it, promises \<open>Nr = until\<close> after every call that passes
  the bound check. The loop runs only while \<open>Nr < until\<close>: a call with a target behind
  the counter (a message of the current chain that arrives again after its key was
  used) passes the check, derives nothing and leaves \<open>Nr\<close> where it was. At
  \<open>session0\<close>, where \<open>Nr = 5\<close>, the target 3 is within the bound and \<open>Nr\<close> stays 5.
\<close>

theorem skipMessageKeys_behind_counterexample:
  "unat (3 :: uint) \<le> unat (Nr session0) + unat (MaxSkip session0) \<and>
   \<not> Nr session0 + MaxSkip session0 < 3 \<and>
   skipMessageKeys heap0 session0 3 = (heap0, session0, None) \<and>
   Nr (fst (snd (skipMessageKeys heap0 session0 3))) \<noteq> 3"
  by (simp add: skipMessageKeys_def skip_loop_stop session0_def)

text \<open>
  Claim C6, amended: for every session whose counter \<open>Nr\<close> is at most the target
  \<open>until\<close> and passes the check of the code (not \<open>Nr + MaxSkip < until\<close>, in \<^verbatim>\<open>uint\<close>
  arithmetic), \<open>skipMessageKeys\<close> returns no error; afterwards \<open>Nr = until\<close>, the
  receiving chain key has advanced by \<open>until - Nr\<close> steps and nothing else in the session
  has changed; the map of the session holds, for every \<open>w\<close> with \<open>Nr \<le> w < until\<close>, under
  the key of \<open>(DHr, w)\<close> the message key of step \<open>w - Nr\<close> of the chain from the old
  \<open>CKr\<close>; these are \<open>until - Nr\<close> distinct keys of the map, every other key of the map
  holds what it held, and no other map of the heap has changed.
\<close>

theorem skipMessageKeys_ahead:
  assumes "Nr s \<le> until" and "\<not> Nr s + MaxSkip s < until"
  shows "case skipMessageKeys h s until of (h', s', err) \<Rightarrow>
           err = None \<and>
           s' = s\<lparr>CKr := chain_key (Crypto s) (CKr s) (unat until - unat (Nr s)), Nr := until\<rparr> \<and>
           next_ref h' = next_ref h \<and>
           (\<forall>r. r \<noteq> MkSkipped s \<longrightarrow> cells h' r = cells h r) \<and>
           (\<forall>w. Nr s \<le> w \<and> w < until \<longrightarrow>
              cells h' (MkSkipped s) (skippedKey (DHr s) w) =
                Some (message_key (Crypto s) (CKr s) (unat w - unat (Nr s)))) \<and>
           (\<forall>k. k \<notin> skippedKey (DHr s) ` {Nr s..<until} \<longrightarrow>
              cells h' (MkSkipped s) k = cells h (MkSkipped s) k) \<and>
           card (skippedKey (DHr s) ` {Nr s..<until}) = unat until - unat (Nr s)"
proof -
  obtain h' s' where loop: "skip_loop h s until = (h', s')"
    by (cases "skip_loop h s until")
  have res: "skipMessageKeys h s until = (h', s', None)"
    using assms(2) loop by (simp add: skipMessageKeys_def)
  have st: "s' = s\<lparr>CKr := chain_key (Crypto s) (CKr s) (unat until - unat (Nr s)), Nr := until\<rparr>"
    using skip_loop_state [where h = h, OF assms(1) refl] loop by simp
  have frame: "next_ref h' = next_ref h \<and> (\<forall>r. r \<noteq> MkSkipped s \<longrightarrow> cells h' r = cells h r)"
    using skip_loop_heap_frame [where h = h and s = s and until = until, OF refl] loop by simp
  have new: "\<forall>w. Nr s \<le> w \<and> w < until \<longrightarrow>
      cells h' (MkSkipped s) (skippedKey (DHr s) w) =
        Some (message_key (Crypto s) (CKr s) (unat w - unat (Nr s)))"
    using skip_loop_new_keys [where h = h and s = s and until = until, OF refl] loop by simp
  have other: "\<forall>k. k \<notin> skippedKey (DHr s) ` {Nr s..<until} \<longrightarrow>
      cells h' (MkSkipped s) k = cells h (MkSkipped s) k"
  proof (intro allI impI)
    fix k
    assume "k \<notin> skippedKey (DHr s) ` {Nr s..<until}"
    then have "\<forall>w. Nr s \<le> w \<and> w < until \<longrightarrow> k \<noteq> skippedKey (DHr s) w"
      by auto
    from skip_loop_other_keys [where h = h, OF refl this] loop
    show "cells h' (MkSkipped s) k = cells h (MkSkipped s) k"
      by simp
  qed
  show ?thesis
    using res st frame new other
    by (simp add: card_image skippedKey_inj_on uint_interval_card)
qed

theorem skipMessageKeys_ahead_witness:
  "Nr session0 \<le> 7 \<and> \<not> Nr session0 + MaxSkip session0 < 7 \<and>
   Nr (fst (snd (skipMessageKeys heap0 session0 7))) = 7 \<and>
   cells (fst (skipMessageKeys heap0 session0 7)) 0 (skippedKey (key_of 1) 5) =
     Some (message_key demoCrypto (key_of 9) 0) \<and>
   cells (fst (skipMessageKeys heap0 session0 7)) 0 (skippedKey (key_of 1) 6) =
     Some (message_key demoCrypto (key_of 9) 1) \<and>
   cells (fst (skipMessageKeys heap0 session0 7)) 0 (skippedKey (key_of 1) 7) = None \<and>
   cells (fst (skipMessageKeys heap0 session0 7)) 1 = cells heap0 1 \<and>
   card (skippedKey (key_of 1) ` {5..<7 :: uint}) = 2"
proof -
  have le: "Nr session0 \<le> 7"
    by (simp add: session0_def)
  have fits: "\<not> Nr session0 + MaxSkip session0 < 7"
    by (simp add: session0_def)
  have out: "skippedKey (key_of 1) 7 \<notin> skippedKey (DHr session0) ` {Nr session0..<7}"
    by (auto simp: session0_def skippedKey_inj)
  have in5: "Nr session0 \<le> 5 \<and> (5 :: uint) < 7" and in6: "Nr session0 \<le> 6 \<and> (6 :: uint) < 7"
    by (simp_all add: session0_def)
  have other: "1 \<noteq> MkSkipped session0"
    by (simp add: session0_def)
  from skipMessageKeys_ahead [OF le fits, of heap0] out in5 in6 le fits other
  show ?thesis
    by (simp add: case_prod_beta) (simp add: session0_def heap0_def)
qed


section \<open>Receiving: the DH ratchet step\<close>

text \<open>
  Claim C5. For every session and header, \<open>dhRatchet\<close> sets \<open>PN\<close> to the old \<open>Ns\<close>,
  \<open>Ns\<close> and \<open>Nr\<close> to 0 and \<open>DHr\<close> to the key of the header, derives \<open>(RK, CKr)\<close> by
  \<open>KdfRK\<close> from the old \<open>RK\<close> and the shared secret of the old \<open>DHs\<close> with the new
  \<open>DHr\<close>, and stores the generated pair in \<open>DHs\<close>; when the generation succeeded it then
  derives \<open>(RK, CKs)\<close> from the intermediate \<open>RK\<close> and the shared secret of the new
  \<open>DHs\<close> with the new \<open>DHr\<close>, and when it failed it returns the error with the session
  as it is by then. In both cases \<open>Ns = 0\<close>, \<open>Nr = 0\<close> and \<open>PN\<close> is the old \<open>Ns\<close>.
\<close>

theorem dhRatchet_step:
  "dhRatchet (dhs, err) s mh =
     (let c = Crypto s;
          (rk1, ckr) = KdfRK c (RK s) (DH c (DHs s) (hDH mh));
          (rk2, cks) = KdfRK c rk1 (DH c dhs (hDH mh));
          s1 = s\<lparr>PN := Ns s, Ns := 0, Nr := 0, DHr := hDH mh, RK := rk1, CKr := ckr,
                 DHs := dhs\<rparr>
      in case err of
           None \<Rightarrow> (s1\<lparr>RK := rk2, CKs := cks\<rparr>, None)
         | Some e \<Rightarrow> (s1, Some (''failed to generate dh pair: '' @ e)))"
  by (simp add: dhRatchet_def Let_def split: prod.split option.split)

section \<open>Receiving: the bound on skipped messages\<close>

text \<open>
  Claim C4. For a session whose \<open>DHr\<close> is the key of the header and whose map has no
  entry for the message, \<open>RatchetDecrypt\<close> returns the error of too many skipped
  messages exactly when \<open>Nr + MaxSkip < N\<close>, in the \<^verbatim>\<open>uint\<close> arithmetic of the check;
  and then it returns the heap and the session as they were: no key was derived and no
  entry stored. Where \<open>Nr + MaxSkip\<close> does not wrap around, the check is the one on the
  numbers: the message is more than \<open>MaxSkip\<close> keys ahead of the counter.
\<close>

theorem too_many_skipped:
  assumes "hDH (Header m) = DHr s"
    and "cells h (MkSkipped s) (skippedKey (hDH (Header m)) (hN (Header m))) = None"
  shows "(snd (snd (snd (RatchetDecrypt EncodeWithAD gen h s m ad))) =
            Some (''failed to skip current chain message keys: too many messages: ''
                    @ decimal (unat (hN (Header m) - Nr s)))
          \<longleftrightarrow> Nr s + MaxSkip s < hN (Header m)) \<and>
         (Nr s + MaxSkip s < hN (Header m) \<longrightarrow>
            RatchetDecrypt EncodeWithAD gen h s m ad =
              (h, s, None,
               Some (''failed to skip current chain message keys: too many messages: ''
                       @ decimal (unat (hN (Header m) - Nr s))))) \<and>
         (unat (Nr s) + unat (MaxSkip s) < 2 ^ 64 \<longrightarrow>
            (Nr s + MaxSkip s < hN (Header m)
             \<longleftrightarrow> unat (MaxSkip s) < unat (hN (Header m)) - unat (Nr s)))"
proof -
  let ?err = "Some (''failed to skip current chain message keys: too many messages: ''
      @ decimal (unat (hN (Header m) - Nr s)))"
  have check: "snd (snd (snd (RatchetDecrypt EncodeWithAD gen h s m ad))) = ?err
      \<longleftrightarrow> Nr s + MaxSkip s < hN (Header m)"
  proof (cases "Nr s + MaxSkip s < hN (Header m)")
    case True
    then show ?thesis
      by (simp add: RatchetDecrypt_same_chain [OF assms(2,1)] skipMessageKeys_too_many)
  next
    case False
    then show ?thesis
      by (simp add: RatchetDecrypt_same_chain [OF assms(2,1)] skipMessageKeys_fits
          split: prod.split option.split)
  qed
  have untouched: "Nr s + MaxSkip s < hN (Header m) \<longrightarrow>
      RatchetDecrypt EncodeWithAD gen h s m ad = (h, s, None, ?err)"
    by (simp add: RatchetDecrypt_same_chain [OF assms(2,1)] skipMessageKeys_too_many)
  have plain: "unat (Nr s) + unat (MaxSkip s) < 2 ^ 64 \<longrightarrow>
      (Nr s + MaxSkip s < hN (Header m)
       \<longleftrightarrow> unat (MaxSkip s) < unat (hN (Header m)) - unat (Nr s))"
    using uint_check_no_wrap by blast
  from check untouched plain show ?thesis
    by blast
qed

theorem too_many_skipped_witness:
  "hDH (Header (message_at 2000 None)) = DHr session0 \<and>
   cells heap0 (MkSkipped session0) (skippedKey (key_of 1) 2000) = None \<and>
   Nr session0 + MaxSkip session0 < 2000 \<and>
   unat (Nr session0) + unat (MaxSkip session0) < 2 ^ 64 \<and>
   unat (MaxSkip session0) < unat (2000 :: uint) - unat (Nr session0) \<and>
   RatchetDecrypt demoEncode (pair_of 3, None) heap0 session0 (message_at 2000 None) None =
     (heap0, session0, None,
      Some ''failed to skip current chain message keys: too many messages: 1995'')"
proof -
  have dh: "hDH (Header (message_at 2000 None)) = DHr session0"
    by (simp add: message_at_def session0_def)
  have miss: "cells heap0 (MkSkipped session0)
      (skippedKey (hDH (Header (message_at 2000 None))) (hN (Header (message_at 2000 None)))) = None"
    by (simp add: heap0_def)
  have far: "Nr session0 + MaxSkip session0 < hN (Header (message_at 2000 None))"
    by (simp add: message_at_def session0_def)
  have fits: "unat (Nr session0) + unat (MaxSkip session0) < 2 ^ 64"
    by (simp add: session0_def)
  have d: "decimal (unat (hN (Header (message_at 2000 None)) - Nr session0)) = ''1995''"
    by (simp add: message_at_def session0_def decimal.simps digit_def)
  from too_many_skipped [where EncodeWithAD = demoEncode and gen = "(pair_of 3, None)"
      and ad = None, OF dh miss] far fits dh miss d
  show ?thesis
    by (simp add: message_at_def)
qed

section \<open>Receiving: the path of a stored key\<close>



text \<open>
  For a plaintext that is not \<^verbatim>\<open>nil\<close> the path of a stored key does what the claim
  says, for every suite: when \<open>mk\<close> opens the message to the plaintext \<open>Some p\<close>,
  \<open>RatchetDecrypt\<close> returns it with no error and the map of the live session no longer
  holds the entry; when \<open>mk\<close> does not open the message, \<open>RatchetDecrypt\<close> returns an
  error and the entry is still there.
\<close>

theorem skipped_key_path:
  assumes "cells h (MkSkipped s) (skippedKey (hDH (Header m)) (hN (Header m))) = Some mk"
  shows "(Decrypt (Crypto s) mk (Ciphertext m) (EncodeWithAD (Header m) ad) = (Some p, None) \<longrightarrow>
            (case RatchetDecrypt EncodeWithAD gen h s m ad of
               (h', s', plaintext, err) \<Rightarrow>
                 plaintext = Some p \<and> err = None \<and> MkSkipped s' = MkSkipped s \<and>
                 cells h' (MkSkipped s) (skippedKey (hDH (Header m)) (hN (Header m))) = None)) \<and>
         (Decrypt (Crypto s) mk (Ciphertext m) (EncodeWithAD (Header m) ad) = (q, Some e) \<longrightarrow>
            (case RatchetDecrypt EncodeWithAD gen h s m ad of
               (h', s', plaintext, err) \<Rightarrow>
                 plaintext = None \<and>
                 err = Some (''can't try skipped message: can't decrypt message: '' @ e) \<and>
                 MkSkipped s' = MkSkipped s \<and>
                 cells h' (MkSkipped s) (skippedKey (hDH (Header m)) (hN (Header m))) = Some mk))"
  using assms
  by (simp add: RatchetDecrypt_hit RatchetDecrypt_hit_fails map_delete_def)

theorem skipped_key_path_witness:
  "cells heap1 (MkSkipped session0) (skippedKey (key_of 1) 3) = Some (key_of 4) \<and>
   Decrypt demoCrypto (key_of 4) (sealed 3 (key_of 4) [104, 105])
     (demoEncode \<lparr>hDH = key_of 1, hN = 3, hPN = 0\<rparr> None) = (Some [104, 105], None) \<and>
   snd (snd (RatchetDecrypt demoEncode (pair_of 3, None) heap1 session0
     (message_at 3 (sealed 3 (key_of 4) [104, 105])) None)) = (Some [104, 105], None) \<and>
   cells (fst (RatchetDecrypt demoEncode (pair_of 3, None) heap1 session0
     (message_at 3 (sealed 3 (key_of 4) [104, 105])) None)) 0 (skippedKey (key_of 1) 3) = None \<and>
   Decrypt demoCrypto (key_of 4) (Some []) (demoEncode \<lparr>hDH = key_of 1, hN = 3, hPN = 0\<rparr> None) =
     (None, Some ''invalid signature'') \<and>
   snd (snd (RatchetDecrypt demoEncode (pair_of 3, None) heap1 session0 (message_at 3 (Some [])) None)) =
     (None, Some ''can't try skipped message: can't decrypt message: invalid signature'') \<and>
   cells (fst (RatchetDecrypt demoEncode (pair_of 3, None) heap1 session0 (message_at 3 (Some [])) None))
     0 (skippedKey (key_of 1) 3) = Some (key_of 4)"
proof -
  have r: "MkSkipped session0 = 0" and c: "Crypto session0 = demoCrypto"
    by (simp_all add: session0_def)
  have entry: "cells heap1 (MkSkipped session0) (skippedKey (key_of 1) 3) = Some (key_of 4)"
    by (simp add: heap1_def map_store_def r)
  have e1: "cells heap1 (MkSkipped session0)
      (skippedKey (hDH (Header (message_at 3 ct))) (hN (Header (message_at 3 ct)))) = Some (key_of 4)"
    for ct
    using entry by (simp add: message_at_def)
  have ok: "Decrypt demoCrypto (key_of 4) (sealed 3 (key_of 4) [104, 105])
      (demoEncode \<lparr>hDH = key_of 1, hN = 3, hPN = 0\<rparr> None) = (Some [104, 105], None)"
    by (rule demo_opens_sealed)
  have bad: "Decrypt demoCrypto (key_of 4) (Some [])
      (demoEncode \<lparr>hDH = key_of 1, hN = 3, hPN = 0\<rparr> None) = (None, Some ''invalid signature'')"
    by (rule demo_rejects_empty)
  from skipped_key_path [where h = heap1 and s = session0 and mk = "key_of 4"
      and m = "message_at 3 (sealed 3 (key_of 4) [104, 105])" and EncodeWithAD = demoEncode
      and ad = None and p = "[104, 105]" and gen = "(pair_of 3, None)", OF e1] ok
  have first: "snd (snd (RatchetDecrypt demoEncode (pair_of 3, None) heap1 session0
       (message_at 3 (sealed 3 (key_of 4) [104, 105])) None)) = (Some [104, 105], None) \<and>
     cells (fst (RatchetDecrypt demoEncode (pair_of 3, None) heap1 session0
       (message_at 3 (sealed 3 (key_of 4) [104, 105])) None)) 0 (skippedKey (key_of 1) 3) = None"
    by (simp add: case_prod_beta r c message_at_def prod_eq_iff)
  from skipped_key_path [where h = heap1 and s = session0 and mk = "key_of 4"
      and m = "message_at 3 (Some [])" and EncodeWithAD = demoEncode
      and ad = None and q = None and e = "''invalid signature''" and gen = "(pair_of 3, None)", OF e1] bad
  have second: "snd (snd (RatchetDecrypt demoEncode (pair_of 3, None) heap1 session0
       (message_at 3 (Some [])) None)) =
       (None, Some ''can't try skipped message: can't decrypt message: invalid signature'') \<and>
     cells (fst (RatchetDecrypt demoEncode (pair_of 3, None) heap1 session0
       (message_at 3 (Some [])) None)) 0 (skippedKey (key_of 1) 3) = Some (key_of 4)"
    by (simp add: case_prod_beta r c message_at_def prod_eq_iff)
  from entry ok bad first second show ?thesis
    by blast
qed


text \<open>
  Claim C10. When \<open>RatchetDecrypt\<close> succeeds by a stored key, every field of the
  session is as before, and the heap is the old one with that entry deleted from the map
  of the session.
\<close>

theorem skipped_key_path_frame:
  assumes "cells h (MkSkipped s) (skippedKey (hDH (Header m)) (hN (Header m))) = Some mk"
    and "Decrypt (Crypto s) mk (Ciphertext m) (EncodeWithAD (Header m) ad) = (Some p, None)"
  shows "case RatchetDecrypt EncodeWithAD gen h s m ad of
           (h', s', plaintext, err) \<Rightarrow>
             plaintext = Some p \<and> err = None \<and>
             RK s' = RK s \<and> DHs s' = DHs s \<and> DHr s' = DHr s \<and> CKs s' = CKs s \<and>
             CKr s' = CKr s \<and> Ns s' = Ns s \<and> Nr s' = Nr s \<and> PN s' = PN s \<and>
             MaxSkip s' = MaxSkip s \<and> MkSkipped s' = MkSkipped s \<and> Crypto s' = Crypto s \<and>
             h' = map_delete h (MkSkipped s) (skippedKey (hDH (Header m)) (hN (Header m)))"
  using assms by (simp add: RatchetDecrypt_hit)

theorem skipped_key_path_frame_witness:
  "cells heap1 (MkSkipped session0) (skippedKey (key_of 1) 3) = Some (key_of 4) \<and>
   Decrypt (Crypto session0) (key_of 4) (sealed 3 (key_of 4) [104, 105])
     (demoEncode \<lparr>hDH = key_of 1, hN = 3, hPN = 0\<rparr> None) = (Some [104, 105], None) \<and>
   RatchetDecrypt demoEncode (pair_of 3, None) heap1 session0
     (message_at 3 (sealed 3 (key_of 4) [104, 105])) None =
       (map_delete heap1 0 (skippedKey (key_of 1) 3), session0, Some [104, 105], None)"
proof -
  have r: "MkSkipped session0 = 0" and c: "Crypto session0 = demoCrypto"
    by (simp_all add: session0_def)
  have entry: "cells heap1 (MkSkipped session0) (skippedKey (key_of 1) 3) = Some (key_of 4)"
    by (simp add: heap1_def map_store_def r)
  have ok: "Decrypt (Crypto session0) (key_of 4) (sealed 3 (key_of 4) [104, 105])
      (demoEncode \<lparr>hDH = key_of 1, hN = 3, hPN = 0\<rparr> None) = (Some [104, 105], None)"
    by (simp add: c demo_opens_sealed)
  have e1: "cells heap1 (MkSkipped session0)
      (skippedKey (hDH (Header (message_at 3 (sealed 3 (key_of 4) [104, 105]))))
         (hN (Header (message_at 3 (sealed 3 (key_of 4) [104, 105]))))) = Some (key_of 4)"
    using entry by (simp add: message_at_def)
  have ok1: "Decrypt (Crypto session0) (key_of 4)
      (Ciphertext (message_at 3 (sealed 3 (key_of 4) [104, 105])))
      (demoEncode (Header (message_at 3 (sealed 3 (key_of 4) [104, 105]))) None) =
        (Some [104, 105], None)"
    using ok by (simp add: message_at_def)
  from skipped_key_path_frame [where EncodeWithAD = demoEncode and gen = "(pair_of 3, None)",
      OF e1 ok1]
  have "RatchetDecrypt demoEncode (pair_of 3, None) heap1 session0
     (message_at 3 (sealed 3 (key_of 4) [104, 105])) None =
       (map_delete heap1 0 (skippedKey (key_of 1) 3), session0, Some [104, 105], None)"
    by (simp add: r message_at_def split: prod.splits)
  with entry ok show ?thesis
    by blast
qed

section \<open>Receiving: a failed call and the map of skipped keys\<close>

text \<open>
  Claim C1 says that a call of \<open>RatchetDecrypt\<close> that returns an error leaves the
  session as it was, the map of skipped keys included. The copy \<open>sc\<close> shares the map
  with the live session, so the keys that \<open>skipMessageKeys\<close> stores on the way to a
  failure stay in it. \<open>session0\<close> expects the message 5 of its chain; a message 6 with
  a forged ciphertext makes the call store the key of the message 5 and then fail: the
  fields of the session are as before, and its map, empty before, holds a key.
\<close>

theorem failed_decrypt_changes_skipped_keys:
  "cells heap0 (MkSkipped session0) (skippedKey (DHr session0) (Nr session0)) = None \<and>
   snd (RatchetDecrypt demoEncode (pair_of 3, None) heap0 session0 (message_at 6 (Some [])) None) =
     (session0, None, Some ''failed to decrypt: invalid signature'') \<and>
   cells (fst (RatchetDecrypt demoEncode (pair_of 3, None) heap0 session0 (message_at 6 (Some [])) None))
     (MkSkipped session0) (skippedKey (DHr session0) (Nr session0)) = Some (key_of 11)"
proof -
  have c: "Crypto session0 = demoCrypto" and n: "Nr session0 = 5" and k: "CKr session0 = key_of 9"
    and x: "MaxSkip session0 = 1000" and d: "DHr session0 = key_of 1"
    by (simp_all add: session0_def)
  have before: "cells heap0 r key = None" for r key
    by (simp add: heap0_def)
  have mk: "message_key demoCrypto (key_of 9) 0 = key_of 11"
    by (simp add: message_key_def chain_key_def demoCrypto_def key_of_def)
  have bad: "Decrypt (Crypto session0)
      (message_key (Crypto session0) (CKr session0)
         (unat (hN (Header (message_at 6 (Some [])))) - unat (Nr session0)))
      (Ciphertext (message_at 6 (Some []))) (demoEncode (Header (message_at 6 (Some []))) None) =
        (None, Some ''invalid signature'')"
    by (simp add: c n k message_at_def message_key_def chain_key_def demoCrypto_def content_def key_of_def)
  have "RatchetDecrypt demoEncode (pair_of 3, None) heap0 session0 (message_at 6 (Some [])) None =
      (fst (skip_loop heap0 session0 (hN (Header (message_at 6 (Some []))))), session0, None,
       Some (''failed to decrypt: '' @ ''invalid signature'')) \<and>
    cells (fst (skip_loop heap0 session0 (hN (Header (message_at 6 (Some [])))))) (MkSkipped session0)
      (skippedKey (DHr session0) (Nr session0)) = Some (message_key (Crypto session0) (CKr session0) 0)"
    by (rule RatchetDecrypt_failure_leaves_keys [where EncodeWithAD = demoEncode, OF before _ _ _ bad])
      (simp_all add: message_at_def n x d)
  then show ?thesis
    by (simp add: before c k mk)
qed

section \<open>The round trip of a first message\<close>

text \<open>
  Claim C2. Let \<open>B\<close> be built by \<open>New\<close> from a shared key without options and \<open>A\<close> from
  the same shared key with the public ratchet key of \<open>B\<close> (both calls succeed, so the
  shared key is not zero). Then \<open>B\<close> decrypts what \<open>A\<close> encrypts, under the same
  associated data, without error and to the bytes of the plaintext. The suite is any
  suite that keeps the contract of its primitives: the shared secret is the same from
  both sides, \<open>Decrypt\<close> opens what \<open>Encrypt\<close> sealed under the same key and associated
  data, the public key of \<open>A\<close> is not the all-zero key that stands for "no remote key
  yet", and the key generation of the ratchet step of \<open>B\<close> succeeds.
\<close>

theorem round_trip:
  assumes B: "New c genB h0 sharedKey [] = (h1, Some B, None)"
    and A: "New c genA h1 sharedKey [WithRemoteKey (PublicKey (DHs B))] = (h2, Some A, None)"
    and dh: "DH c (DHs B) (PublicKey (DHs A)) = DH c (DHs A) (PublicKey (DHs B))"
    and pub: "PublicKey (DHs A) \<noteq> zero32"
    and aead: "\<forall>mk p a. \<exists>q. Decrypt c mk (Encrypt c mk p a) a = (q, None) \<and> content q = content p"
    and gen: "snd gen = None"
  shows "case RatchetEncrypt EncodeWithAD A plaintext ad of
           (A', msg) \<Rightarrow>
             (case RatchetDecrypt EncodeWithAD gen h2 B msg ad of
                (h3, B', p, err) \<Rightarrow> err = None \<and> content p = content plaintext)"
proof -
  let ?B = "\<lparr>RK = sharedKey, DHr = zero32, DHs = fst genB, CKs = sharedKey, CKr = sharedKey,
      Ns = 0, Nr = 0, PN = 0, MkSkipped = next_ref h0, MaxSkip = 1000, Crypto = c\<rparr>"
  from New_plain_success [OF B]
  have h1: "h1 = snd (make_map h0)" and B_eq: "B = ?B"
    by simp_all
  from New_remote_success [OF A]
  have h2: "h2 = snd (make_map h1)"
    and A_eq: "A = \<lparr>RK = fst (KdfRK c sharedKey (DH c (fst genA) (PublicKey (DHs B)))),
        DHr = PublicKey (DHs B), DHs = fst genA,
        CKs = snd (KdfRK c sharedKey (DH c (fst genA) (PublicKey (DHs B)))), CKr = sharedKey,
        Ns = 0, Nr = 0, PN = 0, MkSkipped = next_ref h1, MaxSkip = 1000, Crypto = c\<rparr>"
    by simp_all
  have empty: "cells h2 (next_ref h0) = Map.empty"
    by (simp add: h1 h2 make_map_def)
  let ?hdr = "\<lparr>hDH = PublicKey (fst genA), hN = 0, hPN = 0\<rparr>"
  let ?mk = "snd (KdfCK c (snd (KdfRK c sharedKey (DH c (fst genA) (PublicKey (fst genB))))))"
  have enc: "RatchetEncrypt EncodeWithAD A plaintext ad =
      (A\<lparr>CKs := fst (KdfCK c (CKs A)), Ns := 1\<rparr>,
       \<lparr>Header = ?hdr, Ciphertext = Encrypt c ?mk plaintext (EncodeWithAD ?hdr ad)\<rparr>)"
    by (simp add: RatchetEncrypt_def A_eq B_eq Let_def split: prod.split)
  have pub': "PublicKey (fst genA) \<noteq> zero32"
    using pub by (simp add: A_eq)
  have dh': "DH c (fst genB) (PublicKey (fst genA)) = DH c (fst genA) (PublicKey (fst genB))"
    using dh by (simp add: A_eq B_eq)
  obtain q where q: "Decrypt c ?mk (Encrypt c ?mk plaintext (EncodeWithAD ?hdr ad))
      (EncodeWithAD ?hdr ad) = (q, None)" and cq: "content q = content plaintext"
    using aead by blast
  have "RatchetDecrypt EncodeWithAD gen h2 ?B
      \<lparr>Header = ?hdr, Ciphertext = Encrypt c ?mk plaintext (EncodeWithAD ?hdr ad)\<rparr> ad =
      (h2, \<lparr>RK = fst (KdfRK c (fst (KdfRK c sharedKey (DH c (fst genB) (PublicKey (fst genA)))))
                  (DH c (fst gen) (PublicKey (fst genA)))),
            DHr = PublicKey (fst genA), DHs = fst gen,
            CKs = snd (KdfRK c (fst (KdfRK c sharedKey (DH c (fst genB) (PublicKey (fst genA)))))
                  (DH c (fst gen) (PublicKey (fst genA)))),
            CKr = fst (KdfCK c (snd (KdfRK c sharedKey (DH c (fst genB) (PublicKey (fst genA)))))),
            Ns = 0, Nr = 1, PN = 0, MkSkipped = next_ref h0, MaxSkip = 1000, Crypto = c\<rparr>,
       q, None)"
    by (simp add: RatchetDecrypt_first_message [OF empty pub' gen] dh' q)
  then show ?thesis
    using cq by (simp add: enc B_eq)
qed

theorem round_trip_witness:
  "New demoCrypto (pair_of 2, None) heap0 (key_of 7) [] =
     (\<lparr>cells = (\<lambda>r. Map.empty), next_ref = 1\<rparr>, Some bob0, None) \<and>
   New demoCrypto (pair_of 5, None) \<lparr>cells = (\<lambda>r. Map.empty), next_ref = 1\<rparr> (key_of 7)
       [WithRemoteKey (PublicKey (DHs bob0))] =
     (\<lparr>cells = (\<lambda>r. Map.empty), next_ref = 2\<rparr>, Some alice0, None) \<and>
   DH demoCrypto (DHs bob0) (PublicKey (DHs alice0)) =
     DH demoCrypto (DHs alice0) (PublicKey (DHs bob0)) \<and>
   PublicKey (DHs alice0) \<noteq> zero32 \<and>
   (\<forall>mk p a. \<exists>q. Decrypt demoCrypto mk (Encrypt demoCrypto mk p a) a = (q, None) \<and>
      content q = content p) \<and>
   snd (snd (snd (RatchetDecrypt demoEncode (pair_of 3, None)
     \<lparr>cells = (\<lambda>r. Map.empty), next_ref = 2\<rparr> bob0
     (snd (RatchetEncrypt demoEncode alice0 (Some [104, 105]) None)) None))) = None \<and>
   content (fst (snd (snd (RatchetDecrypt demoEncode (pair_of 3, None)
     \<lparr>cells = (\<lambda>r. Map.empty), next_ref = 2\<rparr> bob0
     (snd (RatchetEncrypt demoEncode alice0 (Some [104, 105]) None)) None)))) = [104, 105]"
proof -
  let ?h1 = "\<lparr>cells = (\<lambda>r. Map.empty :: string \<rightharpoonup> key), next_ref = 1\<rparr>"
  let ?h2 = "\<lparr>cells = (\<lambda>r. Map.empty :: string \<rightharpoonup> key), next_ref = 2\<rparr>"
  have nz: "key_of 7 \<noteq> zero32"
    by (simp add: key_of_def zero32_def)
  have B: "New demoCrypto (pair_of 2, None) heap0 (key_of 7) [] = (?h1, Some bob0, None)"
    using nz by (simp add: New_def make_map_def heap0_def bob0_def fun_eq_iff)
  have kdf: "KdfRK demoCrypto (key_of 7) (DH demoCrypto (pair_of 5) (key_of 2)) = (key_of 14, key_of 15)"
    by (simp add: demoCrypto_def key_of_def pair_of_def)
  have pB: "PublicKey (DHs bob0) = key_of 2"
    by (simp add: bob0_def pair_of_def)
  have A: "New demoCrypto (pair_of 5, None) ?h1 (key_of 7) [WithRemoteKey (PublicKey (DHs bob0))] =
      (?h2, Some alice0, None)"
    using nz by (simp add: New_def make_map_def WithRemoteKey_def alice0_def pB kdf fun_eq_iff)
  have dh: "DH demoCrypto (DHs bob0) (PublicKey (DHs alice0)) =
      DH demoCrypto (DHs alice0) (PublicKey (DHs bob0))"
    by (simp add: demoCrypto_def bob0_def alice0_def pair_of_def key_of_def)
  have pub: "PublicKey (DHs alice0) \<noteq> zero32"
    by (simp add: alice0_def pair_of_def key_of_def zero32_def)
  have aead: "\<forall>mk p a. \<exists>q. Decrypt demoCrypto mk (Encrypt demoCrypto mk p a) a = (q, None) \<and>
      content q = content p"
    by (simp add: demoCrypto_def content_def)
  have gen: "snd (pair_of 3, None :: error) = None"
    by simp
  from round_trip [where EncodeWithAD = demoEncode and plaintext = "Some [104, 105]" and ad = None,
      OF B A dh pub aead gen]
  have "snd (snd (snd (RatchetDecrypt demoEncode (pair_of 3, None) ?h2 bob0
       (snd (RatchetEncrypt demoEncode alice0 (Some [104, 105]) None)) None))) = None \<and>
     content (fst (snd (snd (RatchetDecrypt demoEncode (pair_of 3, None) ?h2 bob0
       (snd (RatchetEncrypt demoEncode alice0 (Some [104, 105]) None)) None)))) = [104, 105]"
    by (simp add: case_prod_beta content_def)
  with B A dh pub aead show ?thesis
    by blast
qed

end
